theory Spec2Isabelle
  imports Main "HOL-Library.Sublist"
begin

section \<open>The reproduction command of dvc (dvc/command/repro.py)\<close>

text \<open>
  The module holds two classes. \<^verbatim>\<open>ReproChange\<close> is one node of the dependency
  walk: its constructor loads the state file of a data item, and \<^verbatim>\<open>reproduce\<close>
  brings the dependencies up to date, asks git whether the sources changed, and re-runs
  the recorded command. \<^verbatim>\<open>CmdRepro\<close> is the command object: \<^verbatim>\<open>run\<close> takes the
  repository lock, resolves the targets and hands them to \<^verbatim>\<open>repro_data_items\<close>.

  Everything the module calls but does not define (the state-file loader, git, the path
  factory, the command runner of \<^verbatim>\<open>CmdRun\<close>, the commit helper of \<^verbatim>\<open>CmdBase\<close>, the
  lock) is a field of the record \<open>env\<close>. Every call the module makes to the outside
  is also written to a trace, in the order the calls happen, so that statements about
  "before", "after" and "exactly once" are statements about that list.
\<close>

subsection \<open>Data\<close>

type_synonym path = string

text \<open>A data item, as far as the module reads it: \<^verbatim>\<open>data_item.data.relative\<close>,
  \<^verbatim>\<open>data_item.data.dvc\<close> and \<^verbatim>\<open>data_item.state.relative\<close>.\<close>

record data_item =
  data_relative :: path
  data_dvc :: path
  state_relative :: path

text \<open>A loaded \<^verbatim>\<open>StateFile\<close>. \<^verbatim>\<open>norm_argv\<close> is \<open>None\<close> when the attribute is
  Python's \<^verbatim>\<open>None\<close>.\<close>

record state_file =
  file' :: path
  norm_argv :: "string list option"
  code_dependencies :: "path list"
  input_files :: "path list"
  is_reproducible :: bool

text \<open>
  Exceptions. \<open>ReproError\<close> carries the message handed to \<^verbatim>\<open>DvcException.__init__\<close>.
  \<open>OSError\<close> carries the path \<^verbatim>\<open>os.remove\<close> failed on. \<open>RecursionError\<close> is what the
  interpreter raises when the call stack is exhausted. \<open>OtherException\<close> is any other
  subclass of \<^verbatim>\<open>Exception\<close>, with its \<^verbatim>\<open>str\<close>.
\<close>

datatype exn =
    ReproError string
  | NotInDataDirError string
  | OSError path
  | RecursionError
  | OtherException string

fun is_ReproError :: "exn \<Rightarrow> bool" where
  "is_ReproError (ReproError m) = True"
| "is_ReproError e = False"

definition dq :: string where
  "dq = [CHR 0x22]"

fun str_exn :: "exn \<Rightarrow> string" where
  "str_exn (ReproError m) = m"
| "str_exn (NotInDataDirError m) = m"
| "str_exn (OSError p) = ''[Errno 2] No such file or directory: '' @ [CHR 0x27] @ p @ [CHR 0x27]"
| "str_exn RecursionError = ''maximum recursion depth exceeded''"
| "str_exn (OtherException m) = m"

text \<open>\<^verbatim>\<open>sep.join(xs)\<close>\<close>

fun join :: "string \<Rightarrow> string list \<Rightarrow> string" where
  "join sep [] = []"
| "join sep [x] = x"
| "join sep (x # y # ys) = x @ sep @ join sep (y # ys)"

text \<open>The calls to the outside, and the output, in the order they happen.
  \<open>Print t vs\<close> is a \<^verbatim>\<open>print\<close> of the literal \<open>t\<close> with the values \<open>vs\<close>.\<close>

datatype event =
    LockAcquire path nat
  | LockRelease
  | IsReadyToGo
  | ToDataItems "path list"
  | Printing string
  | LogError string
  | LogInfo string
  | LogDebug string
  | Print string "string list"
  | NotCommittedChangesWarning
  | CommitIfNeeded string
  | StateFileLoad path
  | WereFilesChanged path "path list"
  | OsRemove path
  | DataItemsFromArgs "string list"
  | RunCommand "string list"

text \<open>The world outside the process: the paths \<^verbatim>\<open>os.remove\<close> can delete, and
  whatever else the collaborators read and write (file contents, the git index).\<close>

record 'x world =
  fs :: "path set"
  ext :: 'x

text \<open>The state the module threads through: the world, \<^verbatim>\<open>cmd_obj._code\<close>, and the
  trace.\<close>

record 'x st =
  world :: "'x world"
  code :: "path list"
  trace :: "event list"

text \<open>The collaborators. \<open>PARAM_NORM_ARGV\<close> is the constant of \<^verbatim>\<open>StateFile\<close>.\<close>

record 'x env =
  lock_file :: path
  lock_acquire :: "'x world \<Rightarrow> nat \<Rightarrow> bool"
  skip_git_actions :: bool
  is_ready_to_go :: "'x world \<Rightarrow> bool"
  data_dir :: string
  to_data_items :: "path list \<Rightarrow> data_item list \<times> path list"
  path_factory_data_item :: "path \<Rightarrow> exn + data_item"
  StateFile_load :: "'x world \<Rightarrow> path \<Rightarrow> exn + state_file"
  PARAM_NORM_ARGV :: string
  were_files_changed :: "'x world \<Rightarrow> path \<Rightarrow> path list \<Rightarrow> bool"
  data_items_from_args :: "'x world \<Rightarrow> string list \<Rightarrow> data_item list"
  run_command :: "'x world \<Rightarrow> path list \<Rightarrow> string list \<Rightarrow> data_item list \<Rightarrow> (exn + bool) \<times> 'x world"
  commit_if_needed :: "'x world \<Rightarrow> string \<Rightarrow> int \<times> 'x world"

definition emit :: "event \<Rightarrow> 'x st \<Rightarrow> 'x st" where
  "emit e s = s\<lparr>trace := trace s @ [e]\<rparr>"

subsection \<open>ReproChange\<close>

text \<open>\<^verbatim>\<open>ReproError(msg)\<close>: the constructor prefixes the message.\<close>

definition repro_error :: "string \<Rightarrow> exn" where
  "repro_error msg = ReproError (''Run error: '' @ msg)"

record node =
  n_data_item :: data_item
  n_state :: state_file
  n_repro_argv :: "string list"

text \<open>\<^verbatim>\<open>ReproChange.__init__\<close>. The assignment to \<^verbatim>\<open>cmd_obj._code\<close> comes before the
  checks of \<^verbatim>\<open>argv\<close>, so it has happened when they raise. \<^verbatim>\<open>not argv\<close> holds for
  \<^verbatim>\<open>None\<close> and for the empty list.\<close>

definition ReproChange_init :: "'x env \<Rightarrow> data_item \<Rightarrow> 'x st \<Rightarrow> (exn + node) \<times> 'x st" where
  "ReproChange_init env item s =
    (let s1 = emit (StateFileLoad (state_relative item)) s in
     case StateFile_load env (world s1) (state_relative item) of
       Inl e \<Rightarrow> (Inl e, s1)
     | Inr sf \<Rightarrow>
         (let s2 = s1\<lparr>code := code_dependencies sf\<rparr> in
          case norm_argv sf of
            None \<Rightarrow>
              (Inl (repro_error (''Error: parameter '' @ PARAM_NORM_ARGV env @
                 '' is nor defined in state file '' @ dq @ state_relative item @ dq)), s2)
          | Some argv \<Rightarrow>
              if argv = [] then
                (Inl (repro_error (''Error: parameter '' @ PARAM_NORM_ARGV env @
                   '' is nor defined in state file '' @ dq @ state_relative item @ dq)), s2)
              else if length argv < 2 then
                (Inl (repro_error (''Error: reproducible cmd in state file '' @ dq @
                   file' sf @ dq @ '' is too short'')), s2)
              else
                (Inr \<lparr>n_data_item = item, n_state = sf, n_repro_argv = argv\<rparr>, s2)))"

text \<open>\<^verbatim>\<open>reproduce_data_file\<close>. \<^verbatim>\<open>os.remove\<close> raises when the path is not there.\<close>

definition reproduce_data_file :: "'x env \<Rightarrow> node \<Rightarrow> 'x st \<Rightarrow> (exn + bool) \<times> 'x st" where
  "reproduce_data_file env nd s =
    (let p = data_relative (n_data_item nd);
         s1 = emit (LogDebug (''Reproducing data file '' @ dq @ p @ dq @
                ''. Removing the file...'')) s;
         s2 = emit (OsRemove p) s1
     in
       if p \<notin> fs (world s2) then (Inl (OSError p), s2)
       else
         (let s3 = s2\<lparr>world := (world s2)\<lparr>fs := fs (world s2) - {p}\<rparr>\<rparr>;
              s4 = emit (LogDebug (''Reproducing data file '' @ dq @ p @ dq @
                     ''. Re-runs cmd: '' @ join '' '' (n_repro_argv nd))) s3;
              s5 = emit (DataItemsFromArgs (n_repro_argv nd)) s4;
              data_items_from_args = data_items_from_args env (world s5) (n_repro_argv nd);
              s6 = emit (RunCommand (n_repro_argv nd)) s5;
              rw = run_command env (world s6) (code s6) (n_repro_argv nd) data_items_from_args
          in (fst rw, s6\<lparr>world := snd rw\<rparr>)))"

text \<open>\<^verbatim>\<open>get_dependencies\<close>: the loop over \<^verbatim>\<open>input_files\<close>, with the list built so
  far; \<^verbatim>\<open>except NotInDataDirError\<close> comes before \<^verbatim>\<open>except Exception\<close>.\<close>

fun dependency_data_items :: "'x env \<Rightarrow> path list \<Rightarrow> data_item list \<Rightarrow> exn + data_item list" where
  "dependency_data_items env [] acc = Inr acc"
| "dependency_data_items env (input_file # rest) acc =
    (case path_factory_data_item env input_file of
       Inl (NotInDataDirError m) \<Rightarrow>
         Inl (repro_error (''The dependency file '' @ dq @ input_file @ dq @
                '' is not a data item''))
     | Inl ex \<Rightarrow>
         Inl (repro_error (''Unable to reproduced the dependency file '' @ dq @ input_file @
                dq @ '': '' @ str_exn ex))
     | Inr data_item \<Rightarrow> dependency_data_items env rest (acc @ [data_item]))"

definition get_dependencies :: "'x env \<Rightarrow> node \<Rightarrow> 'x st \<Rightarrow> (exn + data_item list) \<times> 'x st" where
  "get_dependencies env nd s =
    (let s1 = emit (Print ''+++++++++++++== INPUT FILES: {}'' (input_files (n_state nd))) s
     in (dependency_data_items env (input_files (n_state nd)) [], s1))"

text \<open>The loop of \<^verbatim>\<open>reproduce\<close> over the dependencies: construct the child, reproduce
  it, remember whether any child returned true. \<open>rec\<close> is the recursive call.\<close>

fun for_dependencies ::
  "'x env \<Rightarrow> (node \<Rightarrow> 'x st \<Rightarrow> (exn + bool) \<times> 'x st) \<Rightarrow> data_item list \<Rightarrow> bool \<Rightarrow> 'x st
     \<Rightarrow> (exn + bool) \<times> 'x st" where
  "for_dependencies env rec [] were_input_files_changed s = (Inr were_input_files_changed, s)"
| "for_dependencies env rec (data_item # rest) were_input_files_changed s =
    (case ReproChange_init env data_item s of
       (Inl e, s1) \<Rightarrow> (Inl e, s1)
     | (Inr change, s1) \<Rightarrow>
         (case rec change s1 of
            (Inl e, s2) \<Rightarrow> (Inl e, s2)
          | (Inr r, s2) \<Rightarrow>
              for_dependencies env rec rest (if r then True else were_input_files_changed) s2))"

text \<open>
  \<^verbatim>\<open>reproduce\<close>. The first argument is the number of nested calls the interpreter
  still allows: the dependency graph is read from the state files as the walk goes, a
  cycle in it makes the recursion unbounded, and the interpreter ends that with
  \<open>RecursionError\<close>. \<^verbatim>\<open>get_dependencies\<close> is called twice, once for the \<^verbatim>\<open>print\<close> and
  once for the loop.
\<close>

primrec reproduce :: "nat \<Rightarrow> 'x env \<Rightarrow> node \<Rightarrow> bool \<Rightarrow> 'x st \<Rightarrow> (exn + bool) \<times> 'x st" where
  "reproduce 0 env nd force s = (Inl RecursionError, s)"
| "reproduce (Suc depth) env nd force s =
    (let p = data_relative (n_data_item nd);
         s0 = emit (Print ''+++++++++++++++ reproduce'' [data_dvc (n_data_item nd)]) s
     in
       if \<not> is_reproducible (n_state nd) then
         (Inr False, emit (LogDebug (''Data file '' @ dq @ p @ dq @ '' is not reproducible'')) s0)
       else
         (case get_dependencies env nd s0 of
            (Inl e, s1) \<Rightarrow> (Inl e, s1)
          | (Inr printed, s1) \<Rightarrow>
              (let s2 = emit (Print ''+++++++++++++++ reproduce dependencies: '' []) s1 in
               case get_dependencies env nd s2 of
                 (Inl e, s3) \<Rightarrow> (Inl e, s3)
               | (Inr deps, s3) \<Rightarrow>
                   (case for_dependencies env (\<lambda>change. reproduce depth env change force)
                           deps False s3 of
                      (Inl e, s4) \<Rightarrow> (Inl e, s4)
                    | (Inr were_input_files_changed, s4) \<Rightarrow>
                        (let s5 = emit (WereFilesChanged p (code_dependencies (n_state nd))) s4;
                             was_source_code_changed =
                               were_files_changed env (world s5) p (code_dependencies (n_state nd))
                         in
                           if \<not> force \<and> \<not> was_source_code_changed \<and> \<not> were_input_files_changed
                           then (Inr False,
                                 emit (LogDebug (''Data file '' @ dq @ p @ dq @ '' is up to date'')) s5)
                           else reproduce_data_file env nd s5)))))"

subsection \<open>CmdRepro\<close>

text \<open>The body of the \<^verbatim>\<open>try\<close> in \<^verbatim>\<open>repro_data_items\<close> for one target.\<close>

definition repro_target :: "'x env \<Rightarrow> nat \<Rightarrow> data_item \<Rightarrow> 'x st \<Rightarrow> (exn + bool) \<times> 'x st" where
  "repro_target env depth data_item s =
    (case ReproChange_init env data_item s of
       (Inl e, s1) \<Rightarrow> (Inl e, s1)
     | (Inr repro_change, s1) \<Rightarrow> reproduce depth env repro_change False s1)"

text \<open>The loop of \<^verbatim>\<open>repro_data_items\<close>. It returns the flags \<open>(error, changed)\<close>, or
  the exception that \<^verbatim>\<open>except ReproError\<close> did not catch.\<close>

fun repro_loop ::
  "'x env \<Rightarrow> nat \<Rightarrow> data_item list \<Rightarrow> bool \<Rightarrow> 'x st \<Rightarrow> (exn + bool \<times> bool) \<times> 'x st" where
  "repro_loop env depth [] changed s = (Inr (False, changed), s)"
| "repro_loop env depth (data_item # rest) changed s =
    (case repro_target env depth data_item s of
       (Inr r, s1) \<Rightarrow>
         if r then
           repro_loop env depth rest True
             (emit (LogInfo (''Data file '' @ dq @ data_relative data_item @ dq @
                      '' was reproduced.'')) s1)
         else
           repro_loop env depth rest changed
             (emit (LogInfo (''Reproduction is not required for data file '' @ dq @
                      data_relative data_item @ dq @ ''.'')) s1)
     | (Inl (ReproError m), s1) \<Rightarrow>
         (Inr (True, changed),
          emit (LogError (''Error in reproducing data file '' @ data_relative data_item @
                  '': '' @ m)) s1)
     | (Inl e, s1) \<Rightarrow> (Inl e, s1))"

definition repro_data_items :: "'x env \<Rightarrow> nat \<Rightarrow> data_item list \<Rightarrow> 'x st \<Rightarrow> (exn + bool) \<times> 'x st" where
  "repro_data_items env depth data_item_list s =
    (case repro_loop env depth data_item_list False s of
       (Inl e, s1) \<Rightarrow> (Inl e, s1)
     | (Inr (error, changed), s1) \<Rightarrow>
         (let s2 = (if error \<and> \<not> skip_git_actions env then
                      emit NotCommittedChangesWarning
                        (emit (LogError ''Errors occurred. One or more repro cmd was not successful.'') s1)
                    else s1)
          in (Inr (changed \<and> \<not> error), s2)))"

text \<open>The body of the \<^verbatim>\<open>try\<close> in \<^verbatim>\<open>run\<close>: \<open>Inr (Some c)\<close> is \<^verbatim>\<open>return c\<close>,
  \<open>Inr None\<close> is leaving the block at its end.\<close>

definition run_try :: "'x env \<Rightarrow> nat \<Rightarrow> path list \<Rightarrow> 'x st \<Rightarrow> (exn + int option) \<times> 'x st" where
  "run_try env depth target s =
    (let s1 = (if \<not> skip_git_actions env then emit IsReadyToGo s else s) in
     if \<not> skip_git_actions env \<and> \<not> is_ready_to_go env (world s1) then (Inr (Some 1), s1)
     else
       (let s2 = emit (ToDataItems target) s1;
            data_item_list = fst (to_data_items env target);
            external_files_names = snd (to_data_items env target)
        in
          if external_files_names \<noteq> [] then
            (Inr (Some 1),
             emit (LogError (''Files from outside of the data directory '' @ dq @ data_dir env @
                     dq @ '' could not be reproduced: '' @ join '' '' external_files_names)) s2)
          else
            (case repro_data_items env depth data_item_list s2 of
               (Inl e, s3) \<Rightarrow> (Inl e, s3)
             | (Inr r, s3) \<Rightarrow>
                 if r then
                   (let s4 = emit (CommitIfNeeded (''DVC repro: '' @ join '' '' target)) s3;
                        cw = commit_if_needed env (world s4) (''DVC repro: '' @ join '' '' target)
                    in (Inr (Some (fst cw)), s4\<lparr>world := snd cw\<rparr>))
                 else (Inr None, s3))))"

text \<open>\<^verbatim>\<open>run\<close>: the exit code, or the exception that leaves it. The \<^verbatim>\<open>finally\<close>
  releases the lock whichever way the block is left.\<close>

definition run :: "'x env \<Rightarrow> nat \<Rightarrow> path list \<Rightarrow> 'x st \<Rightarrow> (exn + int) \<times> 'x st" where
  "run env depth target s =
    (let s1 = emit (LockAcquire (lock_file env) 5) s;
         gotten = lock_acquire env (world s1) 5
     in
       if \<not> gotten then
         (Inr 1, emit (Printing ''Cannot perform the cmd since DVC is busy and locked. Please retry the cmd later.'') s1)
       else
         (case run_try env depth target s1 of
            (Inl e, s2) \<Rightarrow> (Inl e, emit LockRelease s2)
          | (Inr (Some c), s2) \<Rightarrow> (Inr c, emit LockRelease s2)
          | (Inr None, s2) \<Rightarrow> (Inr 1, emit LockRelease s2)))"

subsection \<open>Notions the statements use\<close>

text \<open>The state in which \<^verbatim>\<open>repro_data_items\<close> starts, when \<^verbatim>\<open>run\<close> gets that far: the
  lock was asked for, the repository was checked unless that is skipped, the targets were
  resolved.\<close>

definition entry_state :: "'x env \<Rightarrow> path list \<Rightarrow> 'x st \<Rightarrow> 'x st" where
  "entry_state env target s =
     emit (ToDataItems target)
       (if \<not> skip_git_actions env then emit IsReadyToGo (emit (LockAcquire (lock_file env) 5) s)
        else emit (LockAcquire (lock_file env) 5) s)"

text \<open>\<^verbatim>\<open>run\<close> gets as far as \<^verbatim>\<open>repro_data_items\<close>: the lock was obtained, the
  repository is ready or the check is skipped, no target is outside the data directory.\<close>

definition reaches_targets :: "'x env \<Rightarrow> path list \<Rightarrow> 'x st \<Rightarrow> bool" where
  "reaches_targets env target s \<longleftrightarrow>
     lock_acquire env (world s) 5 \<and>
     (skip_git_actions env \<or> is_ready_to_go env (world s)) \<and>
     snd (to_data_items env target) = []"

text \<open>What \<^verbatim>\<open>repro_data_items\<close> prints after the loop when \<^verbatim>\<open>error\<close> is set.\<close>

definition errors_occurred :: "'x env \<Rightarrow> event list" where
  "errors_occurred env =
     (if skip_git_actions env then []
      else [LogError ''Errors occurred. One or more repro cmd was not successful.'',
            NotCommittedChangesWarning])"

text \<open>\<open>appended P s s'\<close>: the trace of \<open>s'\<close> is the trace of \<open>s\<close> with events added at
  its end, all of which satisfy \<open>P\<close>.\<close>

definition appended :: "(event \<Rightarrow> bool) \<Rightarrow> 'x st \<Rightarrow> 'x st \<Rightarrow> bool" where
  "appended P s s' \<longleftrightarrow>
     take (length (trace s)) (trace s') = trace s \<and>
     list_all P (drop (length (trace s)) (trace s'))"

text \<open>The events a \<^verbatim>\<open>ReproChange\<close> produces, and those of the loop over the targets
  when no \<open>ReproError\<close> is caught.\<close>

fun node_event :: "event \<Rightarrow> bool" where
  "node_event (StateFileLoad p) = True"
| "node_event (Print t vs) = True"
| "node_event (LogDebug m) = True"
| "node_event (WereFilesChanged p deps) = True"
| "node_event (OsRemove p) = True"
| "node_event (DataItemsFromArgs argv) = True"
| "node_event (RunCommand argv) = True"
| "node_event e = False"

fun target_event :: "event \<Rightarrow> bool" where
  "target_event (LogInfo m) = True"
| "target_event e = node_event e"

text \<open>Kinds of events, and the number of calls of \<^verbatim>\<open>commit_if_needed\<close> in a trace.\<close>

fun lock_event :: "event \<Rightarrow> bool" where
  "lock_event (LockAcquire f t) = True"
| "lock_event LockRelease = True"
| "lock_event e = False"

fun is_LogError :: "event \<Rightarrow> bool" where
  "is_LogError (LogError m) = True"
| "is_LogError e = False"

fun is_CommitIfNeeded :: "event \<Rightarrow> bool" where
  "is_CommitIfNeeded (CommitIfNeeded m) = True"
| "is_CommitIfNeeded e = False"

definition commits :: "'x st \<Rightarrow> nat" where
  "commits s = length (filter is_CommitIfNeeded (trace s))"

text \<open>The part of \<^verbatim>\<open>reproduce\<close> between the check of \<^verbatim>\<open>is_reproducible\<close> and the call of
  \<^verbatim>\<open>were_files_changed\<close>, for a node that is reproducible: the dependencies are resolved
  and reproduced. The result is the flag \<^verbatim>\<open>were_input_files_changed\<close>, or the exception
  that ended it.\<close>

definition after_dependencies ::
  "nat \<Rightarrow> 'x env \<Rightarrow> node \<Rightarrow> bool \<Rightarrow> 'x st \<Rightarrow> (exn + bool) \<times> 'x st" where
  "after_dependencies depth env nd force s =
    (let s0 = emit (Print ''+++++++++++++++ reproduce'' [data_dvc (n_data_item nd)]) s in
     case get_dependencies env nd s0 of
       (Inl e, s1) \<Rightarrow> (Inl e, s1)
     | (Inr printed, s1) \<Rightarrow>
         (let s2 = emit (Print ''+++++++++++++++ reproduce dependencies: '' []) s1 in
          case get_dependencies env nd s2 of
            (Inl e, s3) \<Rightarrow> (Inl e, s3)
          | (Inr deps, s3) \<Rightarrow>
              for_dependencies env (\<lambda>change. reproduce depth env change force) deps False s3))"


text \<open>The number of calls of \<^verbatim>\<open>git.were_files_changed\<close> in the trace of a state.\<close>

fun is_WereFilesChanged :: "event \<Rightarrow> bool" where
  "is_WereFilesChanged (WereFilesChanged p deps) = True"
| "is_WereFilesChanged e = False"

definition detector_calls :: "'x st \<Rightarrow> nat" where
  "detector_calls s = length (filter is_WereFilesChanged (trace s))"









subsection \<open>A small repository to run the model on\<close>

text \<open>Data items live under \<^verbatim>\<open>data/\<close>; the state file of \<open>p\<close> is \<open>p.state\<close>; the
  state files are a table; git reports as changed the paths of a list; the command runner
  returns a fixed flag and creates the file named by the last argument.\<close>

definition demo_item :: "path \<Rightarrow> data_item" where
  "demo_item p = \<lparr>data_relative = p, data_dvc = p, state_relative = p @ ''.state''\<rparr>"

definition demo_env ::
  "(path \<times> state_file) list \<Rightarrow> path list \<Rightarrow> bool \<Rightarrow> bool \<Rightarrow> unit env" where
  "demo_env table changed skip ok =
    \<lparr>lock_file = ''.dvc.lock'',
     lock_acquire = (\<lambda>w t. True),
     skip_git_actions = skip,
     is_ready_to_go = (\<lambda>w. True),
     data_dir = ''data'',
     to_data_items = (\<lambda>ts. (map demo_item (filter (prefix ''data/'') ts),
                             filter (\<lambda>t. \<not> prefix ''data/'' t) ts)),
     path_factory_data_item =
       (\<lambda>p. if prefix ''data/'' p then Inr (demo_item p) else Inl (NotInDataDirError p)),
     StateFile_load =
       (\<lambda>w p. case map_of table p of
                 None \<Rightarrow> Inl (OtherException ''No such file'')
               | Some sf \<Rightarrow> Inr sf),
     PARAM_NORM_ARGV = ''NormArgv'',
     were_files_changed = (\<lambda>w p deps. p \<in> set changed),
     data_items_from_args = (\<lambda>w argv. []),
     run_command = (\<lambda>w c argv items. (Inr ok, w\<lparr>fs := insert (last argv) (fs w)\<rparr>)),
     commit_if_needed = (\<lambda>w m. (0, w))\<rparr>"

definition demo_state :: "path \<Rightarrow> string list option \<Rightarrow> path list \<Rightarrow> path list \<Rightarrow> bool \<Rightarrow> path \<times> state_file" where
  "demo_state p argv deps inputs repro =
     (p @ ''.state'',
      \<lparr>file' = p @ ''.state'', norm_argv = argv, code_dependencies = deps,
       input_files = inputs, is_reproducible = repro\<rparr>)"

definition demo_st :: "path list \<Rightarrow> unit st" where
  "demo_st files = \<lparr>world = \<lparr>fs = set files, ext = ()\<rparr>, code = [], trace = []\<rparr>"

definition demo_table_malformed :: "(path \<times> state_file) list" where
  "demo_table_malformed =
     [demo_state ''data/raw'' (Some [''cp'', ''in.csv'', ''data/raw'']) [] [] False,
      demo_state ''data/bad'' (Some [''make'']) [''code.py''] [] False]"

text \<open>A chain of two: \<^verbatim>\<open>data/out\<close> is made from \<^verbatim>\<open>data/mid\<close>.\<close>

definition demo_state_out :: "path \<times> state_file" where
  "demo_state_out =
     demo_state ''data/out'' (Some [''python'', ''train.py'', ''data/out'']) [''train.py'']
       [''data/mid''] True"

definition demo_state_mid :: "path \<times> state_file" where
  "demo_state_mid =
     demo_state ''data/mid'' (Some [''python'', ''prep.py'', ''data/mid'']) [''prep.py''] [] True"

definition demo_table_chain2 :: "(path \<times> state_file) list" where
  "demo_table_chain2 = [demo_state_out, demo_state_mid]"

definition demo_node :: "path \<Rightarrow> path \<times> state_file \<Rightarrow> node" where
  "demo_node p st =
     \<lparr>n_data_item = demo_item p,
      n_state = snd st,
      n_repro_argv = (case norm_argv (snd st) of None \<Rightarrow> [] | Some argv \<Rightarrow> argv)\<rparr>"

text \<open>A data item that is not reproducible.\<close>

definition demo_state_leaf :: "path \<times> state_file" where
  "demo_state_leaf =
     demo_state ''data/leaf'' (Some [''cp'', ''in.csv'', ''data/leaf'']) [''in.csv''] [] False"






section \<open>Properties\<close>

subsection \<open>Basic facts\<close>

lemmas demo_simps =
  demo_env_def demo_item_def demo_state_def demo_st_def entry_state_def reaches_targets_def
  errors_occurred_def repro_target_def ReproChange_init_def repro_data_items_def
  reproduce_data_file_def get_dependencies_def run_def run_try_def repro_error_def
  emit_def Let_def

lemma world_emit [simp]: "world (emit e s) = world s"
  by (simp add: emit_def)

lemma code_emit [simp]: "code (emit e s) = code s"
  by (simp add: emit_def)

lemma trace_emit [simp]: "trace (emit e s) = trace s @ [e]"
  by (simp add: emit_def)

lemma sublist_skip: "sublist x b \<Longrightarrow> sublist x (a @ b)"
  by (metis sublist_append)

lemma sublist_here: "sublist x (x @ b)"
  by (rule sublist_append_rightI)

lemma absent_message_names:
  "sublist rel (''Run error: '' @ ''Error: parameter '' @ P @
                 '' is nor defined in state file '' @ dq @ rel @ dq)"
  by (rule sublist_skip, rule sublist_skip, rule sublist_skip, rule sublist_skip,
      rule sublist_skip, rule sublist_here)

lemma short_message_names:
  "sublist f (''Run error: '' @ ''Error: reproducible cmd in state file '' @ dq @
                   f @ dq @ '' is too short'')"
  by (rule sublist_skip, rule sublist_skip, rule sublist_skip, rule sublist_here)

lemma init_malformed:
  assumes "StateFile_load env (world s) (state_relative item) = Inr sf"
      and "norm_argv sf = None \<or> norm_argv sf = Some []"
  shows "ReproChange_init env item s =
           (Inl (repro_error (''Error: parameter '' @ PARAM_NORM_ARGV env @
                 '' is nor defined in state file '' @ dq @ state_relative item @ dq)),
            (emit (StateFileLoad (state_relative item)) s)\<lparr>code := code_dependencies sf\<rparr>)"
  using assms by (auto simp: ReproChange_init_def Let_def)

lemma init_short:
  assumes "StateFile_load env (world s) (state_relative item) = Inr sf"
      and "norm_argv sf = Some [a]"
  shows "ReproChange_init env item s =
           (Inl (repro_error (''Error: reproducible cmd in state file '' @ dq @
                   file' sf @ dq @ '' is too short'')),
            (emit (StateFileLoad (state_relative item)) s)\<lparr>code := code_dependencies sf\<rparr>)"
  using assms by (auto simp: ReproChange_init_def Let_def)

lemma run_reaches:
  assumes "reaches_targets env target s"
  shows "run env depth target s =
     (case repro_data_items env depth (fst (to_data_items env target)) (entry_state env target s) of
        (Inl e, s3) \<Rightarrow> (Inl e, emit LockRelease s3)
      | (Inr r, s3) \<Rightarrow>
          if r then
            (Inr (fst (commit_if_needed env (world s3) (''DVC repro: '' @ join '' '' target))),
             emit LockRelease
               ((emit (CommitIfNeeded (''DVC repro: '' @ join '' '' target)) s3)
                  \<lparr>world := snd (commit_if_needed env (world s3) (''DVC repro: '' @ join '' '' target))\<rparr>))
          else (Inr 1, emit LockRelease s3))"
  using assms
  by (auto simp: run_def run_try_def reaches_targets_def entry_state_def Let_def
           split: prod.splits sum.splits option.splits)

lemma repro_loop_append:
  "repro_loop env depth (pre @ xs) changed s =
     (case repro_loop env depth pre changed s of
        (Inr (False, ch), s1) \<Rightarrow> repro_loop env depth xs ch s1
      | other \<Rightarrow> other)"
  by (induction pre arbitrary: changed s)
     (auto split: prod.splits sum.splits exn.splits bool.splits)

lemma run_aborts_on_ReproError:
  assumes "reaches_targets env target s0"
      and "fst (to_data_items env target) = pre @ item # rest"
      and "repro_loop env depth pre False (entry_state env target s0) = (Inr (False, ch), s)"
      and "repro_target env depth item s = (Inl (ReproError msg), s2)"
  shows "run env depth target s0 =
           (Inr 1,
            s2\<lparr>trace := trace s2 @
                  [LogError (''Error in reproducing data file '' @ data_relative item @ '': '' @ msg)] @
                  errors_occurred env @ [LockRelease]\<rparr>)"
  using assms
  by (simp add: run_reaches repro_data_items_def repro_loop_append errors_occurred_def emit_def)

subsection \<open>The trace only grows\<close>

lemma appended_iff: "appended P s s' \<longleftrightarrow> (\<exists>tl. trace s' = trace s @ tl \<and> list_all P tl)"
  unfolding appended_def
  by (metis append_eq_conv_conj)

lemma appended_refl: "appended P s s"
  by (simp add: appended_iff)

lemma appended_same: "trace s' = trace s \<Longrightarrow> appended P s s'"
  by (simp add: appended_iff)

lemma appended_trans: "appended P s s' \<Longrightarrow> appended P s' s'' \<Longrightarrow> appended P s s''"
  by (auto simp: appended_iff)

lemma appended_emit: "P e \<Longrightarrow> appended P s (emit e s)"
  by (simp add: appended_iff)

lemma appended_mono: "appended P s s' \<Longrightarrow> (\<And>e. P e \<Longrightarrow> Q e) \<Longrightarrow> appended Q s s'"
  by (auto simp: appended_iff list_all_iff)

lemma init_appended: "ReproChange_init env item s = (r, s') \<Longrightarrow> appended node_event s s'"
  by (auto simp: ReproChange_init_def Let_def appended_iff split: sum.splits option.splits if_splits)

lemma get_dependencies_appended: "get_dependencies env nd s = (r, s') \<Longrightarrow> appended node_event s s'"
  by (auto simp: get_dependencies_def Let_def appended_iff)

lemma reproduce_data_file_appended:
  "reproduce_data_file env nd s = (r, s') \<Longrightarrow> appended node_event s s'"
  by (auto simp: reproduce_data_file_def Let_def appended_iff split: if_splits)

lemma for_dependencies_appended:
  assumes "\<And>c s r s'. rec c s = (r, s') \<Longrightarrow> appended node_event s s'"
  shows "for_dependencies env rec ds ch s = (r, s') \<Longrightarrow> appended node_event s s'"
proof (induction ds arbitrary: ch s)
  case Nil
  then show ?case by (simp add: appended_refl)
next
  case (Cons d ds)
  obtain r1 s1 where i: "ReproChange_init env d s = (r1, s1)" by (cases "ReproChange_init env d s")
  note a1 = init_appended[OF i]
  show ?case
  proof (cases r1)
    case (Inl e)
    with Cons.prems i a1 show ?thesis by simp
  next
    case (Inr c)
    obtain r2 s2 where c: "rec c s1 = (r2, s2)" by (cases "rec c s1")
    note a2 = appended_trans[OF a1 assms[OF c]]
    show ?thesis
    proof (cases r2)
      case (Inl e)
      with Cons.prems i Inr c a2 show ?thesis by simp
    next
      case (Inr b)
      with Cons.prems i \<open>r1 = Inr c\<close> c
      have "for_dependencies env rec ds (if b then True else ch) s2 = (r, s')" by simp
      from appended_trans[OF a2 Cons.IH[OF this]] show ?thesis .
    qed
  qed
qed

lemma reproduce_appended:
  "reproduce depth env nd force s = (r, s') \<Longrightarrow> appended node_event s s'"
proof (induction depth arbitrary: nd force s r s')
  case 0
  then show ?case by (simp add: appended_refl)
next
  case (Suc depth)
  let ?s0 = "emit (Print ''+++++++++++++++ reproduce'' [data_dvc (n_data_item nd)]) s"
  have a0: "appended node_event s ?s0" by (simp add: appended_emit)
  show ?case
  proof (cases "is_reproducible (n_state nd)")
    case False
    with Suc.prems show ?thesis
      by (auto simp: Let_def appended_iff)
  next
    case True
    obtain r1 s1 where g1: "get_dependencies env nd ?s0 = (r1, s1)"
      by (cases "get_dependencies env nd ?s0")
    note a1 = appended_trans[OF a0 get_dependencies_appended[OF g1]]
    show ?thesis
    proof (cases r1)
      case (Inl e)
      with Suc.prems True g1 a1 show ?thesis by (simp add: Let_def)
    next
      case r1: (Inr printed)
      let ?s2 = "emit (Print ''+++++++++++++++ reproduce dependencies: '' []) s1"
      have a2: "appended node_event s ?s2"
        using a1 by (rule appended_trans) (simp add: appended_emit)
      obtain r3 s3 where g3: "get_dependencies env nd ?s2 = (r3, s3)"
        by (cases "get_dependencies env nd ?s2")
      note a3 = appended_trans[OF a2 get_dependencies_appended[OF g3]]
      show ?thesis
      proof (cases r3)
        case (Inl e)
        with Suc.prems True g1 r1 g3 a3 show ?thesis by (simp add: Let_def)
      next
        case r3: (Inr deps)
        obtain r4 s4 where f: "for_dependencies env (\<lambda>change. reproduce depth env change force)
                           deps False s3 = (r4, s4)"
          by (cases "for_dependencies env (\<lambda>change. reproduce depth env change force) deps False s3")
        have a4: "appended node_event s s4"
          using a3 by (rule appended_trans) (rule for_dependencies_appended[OF Suc.IH f])
        show ?thesis
        proof (cases r4)
          case (Inl e)
          with Suc.prems True g1 r1 g3 r3 f a4 show ?thesis by (simp add: Let_def)
        next
          case r4: (Inr inputs)
          let ?s5 = "emit (WereFilesChanged (data_relative (n_data_item nd)) (code_dependencies (n_state nd))) s4"
          have a5: "appended node_event s ?s5"
            using a4 by (rule appended_trans) (simp add: appended_emit)
          show ?thesis
          proof (cases "\<not> force \<and> \<not> were_files_changed env (world s4) (data_relative (n_data_item nd)) (code_dependencies (n_state nd)) \<and> \<not> inputs")
            case up: True
            with Suc.prems True g1 r1 g3 r3 f r4
            have "s' = emit (LogDebug (''Data file '' @ dq @ data_relative (n_data_item nd) @ dq @ '' is up to date'')) ?s5"
              by (auto simp: Let_def)
            then have "appended node_event ?s5 s'"
              by (simp only: appended_emit node_event.simps)
            with a5 show ?thesis
              by (rule appended_trans)
          next
            case False
            with Suc.prems True g1 r1 g3 r3 f r4
            have "reproduce_data_file env nd ?s5 = (r, s')"
              by (auto simp: Let_def)
            from appended_trans[OF a5 reproduce_data_file_appended[OF this]] show ?thesis .
          qed
        qed
      qed
    qed
  qed
qed

lemma node_event_cases:
  "node_event e \<Longrightarrow> \<not> lock_event e \<and> \<not> is_LogError e \<and> \<not> is_CommitIfNeeded e \<and>
     e \<noteq> NotCommittedChangesWarning"
  by (cases e) simp_all

lemma target_event_cases:
  "target_event e \<Longrightarrow> \<not> lock_event e \<and> \<not> is_LogError e \<and> \<not> is_CommitIfNeeded e \<and>
     e \<noteq> NotCommittedChangesWarning"
  by (cases e) simp_all

lemma repro_target_appended:
  "repro_target env depth d s = (r, s') \<Longrightarrow> appended node_event s s'"
  unfolding repro_target_def
  by (auto split: prod.splits sum.splits
           dest!: init_appended reproduce_appended intro: appended_trans)

lemma repro_target_appended_target:
  "repro_target env depth d s = (r, s') \<Longrightarrow> appended target_event s s'"
  by (erule appended_mono[OF repro_target_appended]) (case_tac e; simp)

lemma repro_loop_appended:
  "repro_loop env depth ds ch s = (r, s') \<Longrightarrow>
     (case r of
        Inl e \<Rightarrow> \<not> is_ReproError e \<and> appended target_event s s'
      | Inr (err, ch') \<Rightarrow>
          if err then appended (\<lambda>e. target_event e \<or> is_LogError e) s s'
          else appended target_event s s')"
proof (induction ds arbitrary: ch s)
  case Nil
  then show ?case by (auto simp: appended_refl)
next
  case (Cons d ds)
  obtain r1 s1 where t: "repro_target env depth d s = (r1, s1)"
    by (cases "repro_target env depth d s")
  note a1 = repro_target_appended_target[OF t]
  show ?case
  proof (cases r1)
    case (Inr b)
    define s2 where "s2 = emit (LogInfo (if b then ''Data file '' @ dq @ data_relative d @ dq @
                      '' was reproduced.'' else ''Reproduction is not required for data file '' @ dq @
                      data_relative d @ dq @ ''.'')) s1"
    have a2: "appended target_event s s2"
      using a1 unfolding s2_def by (rule appended_trans) (simp add: appended_emit)
    have "repro_loop env depth ds (if b then True else ch) s2 = (r, s')"
      using Cons.prems t Inr by (auto simp: s2_def)
    from Cons.IH[OF this] a2 show ?thesis
      by (auto split: sum.splits prod.splits if_splits
               intro: appended_trans appended_mono[where P = target_event])
  next
    case (Inl e)
    show ?thesis
    proof (cases e)
      case (ReproError m)
      with Cons.prems t Inl
      have "r = Inr (True, ch)" and
        s': "s' = emit (LogError (''Error in reproducing data file '' @ data_relative d @ '': '' @ m)) s1"
        by auto
      have "appended (\<lambda>e. target_event e \<or> is_LogError e) s1 s'"
        unfolding s' by (rule appended_emit) simp
      moreover have "appended (\<lambda>e. target_event e \<or> is_LogError e) s s1"
        using a1 by (rule appended_mono) simp
      ultimately show ?thesis
        using \<open>r = Inr (True, ch)\<close> by (auto intro: appended_trans)
    qed (use Cons.prems t Inl a1 in auto)
  qed
qed

lemma repro_data_items_appended:
  assumes "repro_data_items env depth ds s = (r, s')"
  shows "appended (\<lambda>e. \<not> lock_event e \<and> \<not> is_CommitIfNeeded e) s s'"
proof -
  obtain r1 s1 where l: "repro_loop env depth ds False s = (r1, s1)"
    by (cases "repro_loop env depth ds False s")
  have a1: "appended (\<lambda>e. \<not> lock_event e \<and> \<not> is_CommitIfNeeded e) s s1"
    using repro_loop_appended[OF l]
    by (auto split: sum.splits prod.splits if_splits elim!: appended_mono
             dest: target_event_cases) (case_tac e; simp)+
  have "appended (\<lambda>e. \<not> lock_event e \<and> \<not> is_CommitIfNeeded e) s1 s'"
    using assms l
    by (auto simp: repro_data_items_def Let_def appended_iff split: sum.splits prod.splits if_splits)
  with a1 show ?thesis by (rule appended_trans)
qed

lemma run_try_appended:
  assumes "run_try env depth target s = (r, s')"
  shows "appended (\<lambda>e. \<not> lock_event e) s s'"
proof -
  let ?s1 = "if \<not> skip_git_actions env then emit IsReadyToGo s else s"
  let ?s2 = "emit (ToDataItems target) ?s1"
  have a2: "appended (\<lambda>e. \<not> lock_event e) s ?s2" "appended (\<lambda>e. \<not> lock_event e) s ?s1"
    by (auto simp: appended_iff)
  obtain r3 s3 where d: "repro_data_items env depth (fst (to_data_items env target)) ?s2 = (r3, s3)"
    by (cases "repro_data_items env depth (fst (to_data_items env target)) ?s2")
  have a3: "appended (\<lambda>e. \<not> lock_event e) s s3"
    using a2(1) by (rule appended_trans) (rule appended_mono[OF repro_data_items_appended[OF d]], simp)
  have "appended (\<lambda>e. \<not> lock_event e) s3 s' \<or> s' = ?s1 \<or> appended (\<lambda>e. \<not> lock_event e) ?s2 s'"
    using assms d
    by (auto simp: run_try_def Let_def appended_iff split: sum.splits prod.splits if_splits)
  with a2 a3 show ?thesis
    by (auto intro: appended_trans)
qed

lemma sublist_join: "name \<in> set names \<Longrightarrow> sublist name (join sep names)"
proof (induction sep names rule: join.induct)
  case (3 sep x y ys)
  show ?case
  proof (cases "name = x")
    case True
    then show ?thesis by (simp add: sublist_here)
  next
    case False
    with 3 have "sublist name (join sep (y # ys))" by simp
    then have "sublist name (x @ sep @ join sep (y # ys))"
      by (intro sublist_skip)
    then show ?thesis by simp
  qed
qed simp_all

lemma commits_appended:
  "appended P s s' \<Longrightarrow> (\<And>e. P e \<Longrightarrow> \<not> is_CommitIfNeeded e) \<Longrightarrow> commits s' = commits s"
  by (auto simp: appended_iff commits_def list_all_iff)

lemma commits_emit: "\<not> is_CommitIfNeeded e \<Longrightarrow> commits (emit e s) = commits s"
  by (simp add: commits_def)

lemma commits_entry_state: "commits (entry_state env target s) = commits s"
  by (simp add: entry_state_def commits_def)

lemma repro_loop_completed_appended:
  "repro_loop env depth ds ch s = (Inr (False, ch'), s') \<Longrightarrow> appended target_event s s'"
  by (drule repro_loop_appended) simp

lemma commits_trace_cong: "trace s' = trace s \<Longrightarrow> commits s' = commits s"
  by (simp add: commits_def)

subsection \<open>The steps of reproduce and of run\<close>

lemma reproduce_not_reproducible:
  "\<not> is_reproducible (n_state nd) \<Longrightarrow>
   reproduce (Suc depth) env nd force s =
     (Inr False,
      s\<lparr>trace := trace s @
          [Print ''+++++++++++++++ reproduce'' [data_dvc (n_data_item nd)],
           LogDebug (''Data file '' @ dq @ data_relative (n_data_item nd) @ dq @
                       '' is not reproducible'')]\<rparr>)"
  by (simp add: emit_def)

lemma reproduce_reproducible:
  "is_reproducible (n_state nd) \<Longrightarrow>
   reproduce (Suc depth) env nd force s =
     (case after_dependencies depth env nd force s of
        (Inl e, s4) \<Rightarrow> (Inl e, s4)
      | (Inr were_input_files_changed, s4) \<Rightarrow>
          if \<not> force \<and>
             \<not> were_files_changed env (world s4) (data_relative (n_data_item nd))
                 (code_dependencies (n_state nd)) \<and>
             \<not> were_input_files_changed
          then (Inr False,
                s4\<lparr>trace := trace s4 @
                  [WereFilesChanged (data_relative (n_data_item nd)) (code_dependencies (n_state nd)),
                   LogDebug (''Data file '' @ dq @ data_relative (n_data_item nd) @ dq @
                               '' is up to date'')]\<rparr>)
          else reproduce_data_file env nd
                 (emit (WereFilesChanged (data_relative (n_data_item nd))
                          (code_dependencies (n_state nd))) s4))"
  by (simp add: after_dependencies_def Let_def emit_def split: prod.splits sum.splits)

lemma reproduce_data_file_present:
  "data_relative (n_data_item nd) \<in> fs (world s) \<Longrightarrow>
   reproduce_data_file env nd s =
     (let w = (world s)\<lparr>fs := fs (world s) - {data_relative (n_data_item nd)}\<rparr>;
          rw = run_command env w (code s) (n_repro_argv nd)
                 (data_items_from_args env w (n_repro_argv nd))
      in (fst rw,
          s\<lparr>world := snd rw,
            trace := trace s @
              [LogDebug (''Reproducing data file '' @ dq @ data_relative (n_data_item nd) @ dq @
                           ''. Removing the file...''),
               OsRemove (data_relative (n_data_item nd)),
               LogDebug (''Reproducing data file '' @ dq @ data_relative (n_data_item nd) @ dq @
                           ''. Re-runs cmd: '' @ join '' '' (n_repro_argv nd)),
               DataItemsFromArgs (n_repro_argv nd),
               RunCommand (n_repro_argv nd)]\<rparr>))"
  by (simp add: reproduce_data_file_def Let_def emit_def)

lemma reproduce_data_file_missing:
  "data_relative (n_data_item nd) \<notin> fs (world s) \<Longrightarrow>
   reproduce_data_file env nd s =
     (Inl (OSError (data_relative (n_data_item nd))),
      s\<lparr>trace := trace s @
          [LogDebug (''Reproducing data file '' @ dq @ data_relative (n_data_item nd) @ dq @
                       ''. Removing the file...''),
           OsRemove (data_relative (n_data_item nd))]\<rparr>)"
  by (simp add: reproduce_data_file_def Let_def emit_def)

lemma run_escapes:
  assumes "reaches_targets env target s0"
      and "fst (to_data_items env target) = pre @ item # rest"
      and "repro_loop env depth pre False (entry_state env target s0) = (Inr (False, ch), sa)"
      and "repro_target env depth item sa = (Inl e, sb)"
      and "\<not> is_ReproError e"
  shows "run env depth target s0 = (Inl e, emit LockRelease sb)"
proof -
  have "repro_loop env depth (item # rest) ch sa = (Inl e, sb)"
    using assms(4,5) by (cases e) simp_all
  then show ?thesis
    using assms(1-3) by (simp add: run_reaches repro_data_items_def repro_loop_append)
qed

lemma escape_appended:
  assumes "repro_loop env depth pre False (entry_state env target s0) = (Inr (False, ch), sa)"
      and "repro_target env depth item sa = (Inl e, sb)"
  shows "appended (\<lambda>e. \<not> is_LogError e \<and> e \<noteq> NotCommittedChangesWarning) s0 (emit LockRelease sb)"
proof -
  let ?P = "\<lambda>e. \<not> is_LogError e \<and> e \<noteq> NotCommittedChangesWarning"
  have "appended ?P s0 (entry_state env target s0)"
    by (simp add: appended_iff entry_state_def)
  moreover have "appended ?P (entry_state env target s0) sa"
    using repro_loop_completed_appended[OF assms(1)]
    by (rule appended_mono) (simp add: target_event_cases)
  moreover have "appended ?P sa sb"
    using repro_target_appended[OF assms(2)]
    by (rule appended_mono) (simp add: node_event_cases)
  moreover have "appended ?P sb (emit LockRelease sb)"
    by (simp add: appended_emit)
  ultimately show ?thesis
    by (blast intro: appended_trans)
qed

subsection \<open>The loop over the targets and what the targets did\<close>



lemma after_dependencies_appended:
  assumes "after_dependencies depth env nd force s = (r, s4)"
  shows "appended node_event s s4"
proof -
  let ?s0 = "emit (Print ''+++++++++++++++ reproduce'' [data_dvc (n_data_item nd)]) s"
  have a0: "appended node_event s ?s0" by (simp add: appended_emit)
  obtain r1 s1 where g1: "get_dependencies env nd ?s0 = (r1, s1)"
    by (cases "get_dependencies env nd ?s0")
  note a1 = appended_trans[OF a0 get_dependencies_appended[OF g1]]
  show ?thesis
  proof (cases r1)
    case (Inl e)
    with assms g1 a1 show ?thesis by (simp add: after_dependencies_def)
  next
    case r1: (Inr printed)
    let ?s2 = "emit (Print ''+++++++++++++++ reproduce dependencies: '' []) s1"
    have a2: "appended node_event s ?s2"
      using a1 by (rule appended_trans) (simp add: appended_emit)
    obtain r3 s3 where g3: "get_dependencies env nd ?s2 = (r3, s3)"
      by (cases "get_dependencies env nd ?s2")
    note a3 = appended_trans[OF a2 get_dependencies_appended[OF g3]]
    show ?thesis
    proof (cases r3)
      case (Inl e)
      with assms g1 r1 g3 a3 show ?thesis by (simp add: after_dependencies_def)
    next
      case (Inr deps)
      with assms g1 r1 g3
      have "for_dependencies env (\<lambda>change. reproduce depth env change force) deps False s3 = (r, s4)"
        by (simp add: after_dependencies_def)
      from appended_trans[OF a3 for_dependencies_appended[OF reproduce_appended this]]
      show ?thesis .
    qed
  qed
qed

subsection \<open>The loop over the dependencies, and a chain of dependencies\<close>















subsection \<open>When reproduce regenerates\<close>



subsection \<open>Dependencies first\<close>




subsection \<open>When run succeeds\<close>



subsection \<open>Malformed state files\<close>

text \<open>
  Claim C4. Constructing a \<^verbatim>\<open>ReproChange\<close> for a data item whose state file has no
  \<^verbatim>\<open>norm_argv\<close>, or one of fewer than two tokens, raises \<open>ReproError\<close>, whatever the
  other fields of the state file are (\<^verbatim>\<open>is_reproducible\<close> included). The message holds
  the location of the state file: \<^verbatim>\<open>data_item.state.relative\<close> when \<^verbatim>\<open>norm_argv\<close> is
  absent or empty, the \<^verbatim>\<open>file\<close> attribute of the state file when it has one token. The
  error leaves the dependency loop of a parent node as it is, and when the item is a
  target, \<^verbatim>\<open>run\<close> logs the error, attempts none of the targets after it and returns 1.
\<close>

theorem malformed_state_is_an_error:
  assumes "StateFile_load env (world s) (state_relative item) = Inr sf"
      and "case norm_argv sf of None \<Rightarrow> True | Some argv \<Rightarrow> length argv < 2"
  shows "\<exists>msg.
      ReproChange_init env item s =
        (Inl (ReproError msg),
         (emit (StateFileLoad (state_relative item)) s)\<lparr>code := code_dependencies sf\<rparr>)
    \<and> (if norm_argv sf = None \<or> norm_argv sf = Some [] then sublist (state_relative item) msg
        else sublist (file' sf) msg)
    \<and> fst (for_dependencies env rec (item # rest) inputs_changed s) = Inl (ReproError msg)
    \<and> (\<forall>target s0 pre ch.
          reaches_targets env target s0 \<and>
          fst (to_data_items env target) = pre @ item # rest \<and>
          repro_loop env depth pre False (entry_state env target s0) = (Inr (False, ch), s)
          \<longrightarrow> run env depth target s0 =
                (Inr 1,
                 s\<lparr>code := code_dependencies sf,
                   trace := trace s @
                     [StateFileLoad (state_relative item),
                      LogError (''Error in reproducing data file '' @ data_relative item @ '': '' @ msg)] @
                     errors_occurred env @ [LockRelease]\<rparr>))"
proof -
  define s2 where "s2 = (emit (StateFileLoad (state_relative item)) s)\<lparr>code := code_dependencies sf\<rparr>"
  consider (absent) "norm_argv sf = None \<or> norm_argv sf = Some []"
    | (short) a where "norm_argv sf = Some [a]"
  proof (cases "norm_argv sf")
    case None
    then show ?thesis using that by simp
  next
    case (Some argv)
    with assms(2) have "argv = [] \<or> (\<exists>a. argv = [a])"
      by (cases argv; cases "tl argv"; auto)
    with Some show ?thesis using that by auto
  qed
  then obtain msg where init: "ReproChange_init env item s = (Inl (ReproError msg), s2)"
    and names: "if norm_argv sf = None \<or> norm_argv sf = Some [] then sublist (state_relative item) msg
        else sublist (file' sf) msg"
  proof cases
    case absent
    have "ReproChange_init env item s =
       (Inl (ReproError (''Run error: '' @ ''Error: parameter '' @ PARAM_NORM_ARGV env @
                 '' is nor defined in state file '' @ dq @ state_relative item @ dq)), s2)"
      using init_malformed[OF assms(1) absent] by (simp add: repro_error_def s2_def)
    then show ?thesis
      using that absent absent_message_names by metis
  next
    case short
    have "ReproChange_init env item s =
       (Inl (ReproError (''Run error: '' @ ''Error: reproducible cmd in state file '' @ dq @
                   file' sf @ dq @ '' is too short'')), s2)"
      using init_short[OF assms(1) short] by (simp add: repro_error_def s2_def)
    moreover have "\<not> (norm_argv sf = None \<or> norm_argv sf = Some [])"
      using short by simp
    ultimately show ?thesis
      using that short_message_names by metis
  qed
  have dep: "fst (for_dependencies env rec (item # rest) inputs_changed s) = Inl (ReproError msg)"
    using init by simp
  have tgt: "repro_target env depth item s = (Inl (ReproError msg), s2)"
    using init by (simp add: repro_target_def)
  have run: "run env depth target s0 =
                (Inr 1,
                 s\<lparr>code := code_dependencies sf,
                   trace := trace s @
                     [StateFileLoad (state_relative item),
                      LogError (''Error in reproducing data file '' @ data_relative item @ '': '' @ msg)] @
                     errors_occurred env @ [LockRelease]\<rparr>)"
    if "reaches_targets env target s0"
      and "fst (to_data_items env target) = pre @ item # rest"
      and "repro_loop env depth pre False (entry_state env target s0) = (Inr (False, ch), s)"
    for target s0 pre ch
    using run_aborts_on_ReproError[OF that tgt] by (simp add: s2_def emit_def)
  show ?thesis
    using init names dep run unfolding s2_def by blast
qed

theorem malformed_state_is_an_error_witness:
  "StateFile_load (demo_env demo_table_malformed [] False True)
      (world (snd (repro_loop (demo_env demo_table_malformed [] False True) (Suc 0)
                     [demo_item ''data/raw''] False
                     (entry_state (demo_env demo_table_malformed [] False True)
                        [''data/raw'', ''data/bad'', ''data/next'']
                        (demo_st [''data/raw'', ''data/bad''])))))
      (state_relative (demo_item ''data/bad''))
     = Inr (snd (demo_state ''data/bad'' (Some [''make'']) [''code.py''] [] False))
   \<and> reaches_targets (demo_env demo_table_malformed [] False True)
         [''data/raw'', ''data/bad'', ''data/next''] (demo_st [''data/raw'', ''data/bad''])
   \<and> fst (to_data_items (demo_env demo_table_malformed [] False True)
              [''data/raw'', ''data/bad'', ''data/next''])
       = [demo_item ''data/raw''] @ demo_item ''data/bad'' # [demo_item ''data/next'']
   \<and> fst (run (demo_env demo_table_malformed [] False True) (Suc 0)
              [''data/raw'', ''data/bad'', ''data/next''] (demo_st [''data/raw'', ''data/bad'']))
       = Inr 1
   \<and> code (snd (run (demo_env demo_table_malformed [] False True) (Suc 0)
              [''data/raw'', ''data/bad'', ''data/next''] (demo_st [''data/raw'', ''data/bad''])))
       = [''code.py'']"
proof -
  let ?E = "demo_env demo_table_malformed [] False True"
  let ?T = "[''data/raw'', ''data/bad'', ''data/next'']"
  let ?S0 = "demo_st [''data/raw'', ''data/bad'']"
  let ?L = "repro_loop ?E (Suc 0) [demo_item ''data/raw''] False (entry_state ?E ?T ?S0)"
  let ?sf = "snd (demo_state ''data/bad'' (Some [''make'']) [''code.py''] [] False)"
  have h1: "StateFile_load ?E (world (snd ?L)) (state_relative (demo_item ''data/bad'')) = Inr ?sf"
    by (simp add: demo_env_def demo_item_def demo_state_def demo_table_malformed_def)
  have h2: "case norm_argv ?sf of None \<Rightarrow> True | Some argv \<Rightarrow> length argv < 2"
    by (simp add: demo_state_def)
  have h3: "reaches_targets ?E ?T ?S0"
    by (simp add: demo_simps)
  have h4: "fst (to_data_items ?E ?T)
              = [demo_item ''data/raw''] @ demo_item ''data/bad'' # [demo_item ''data/next'']"
    by (simp add: demo_simps)
  have "fst ?L = Inr (False, False)"
    by (simp add: demo_simps demo_table_malformed_def)
  then have h5: "?L = (Inr (False, False), snd ?L)"
    by (metis prod.collapse)
  from malformed_state_is_an_error[OF h1 h2, of "(\<lambda>c s. (Inr False, s))" "[demo_item ''data/next'']" False "Suc 0"]
  obtain msg where
    "\<forall>target s0 pre ch.
          reaches_targets ?E target s0 \<and>
          fst (to_data_items ?E target) = pre @ demo_item ''data/bad'' # [demo_item ''data/next''] \<and>
          repro_loop ?E (Suc 0) pre False (entry_state ?E target s0) = (Inr (False, ch), snd ?L)
          \<longrightarrow> run ?E (Suc 0) target s0 =
                (Inr 1,
                 (snd ?L)\<lparr>code := code_dependencies ?sf,
                   trace := trace (snd ?L) @
                     [StateFileLoad (state_relative (demo_item ''data/bad'')),
                      LogError (''Error in reproducing data file '' @ data_relative (demo_item ''data/bad'') @ '': '' @ msg)] @
                     errors_occurred ?E @ [LockRelease]\<rparr>)"
    by blast
  with h3 h4 h5 have "run ?E (Suc 0) ?T ?S0 =
                (Inr 1,
                 (snd ?L)\<lparr>code := code_dependencies ?sf,
                   trace := trace (snd ?L) @
                     [StateFileLoad (state_relative (demo_item ''data/bad'')),
                      LogError (''Error in reproducing data file '' @ data_relative (demo_item ''data/bad'') @ '': '' @ msg)] @
                     errors_occurred ?E @ [LockRelease]\<rparr>)"
    by blast
  then have "fst (run ?E (Suc 0) ?T ?S0) = Inr 1" "code (snd (run ?E (Suc 0) ?T ?S0)) = [''code.py'']"
    by (simp_all add: demo_state_def)
  with h1 h3 h4 show ?thesis by blast
qed

subsection \<open>The lock\<close>

text \<open>
  Claim C5. The first thing \<^verbatim>\<open>run\<close> does is ask for the lock, with timeout 5. If the lock
  is not obtained, \<^verbatim>\<open>run\<close> prints the busy message and returns 1, having resolved no
  target and reproduced nothing. If it is obtained, then whichever way \<^verbatim>\<open>run\<close> ends (an
  exit code or an exception) the last event is the release of the lock, and the lock is
  neither asked for nor released in between.
\<close>

theorem lock_discipline:
  "\<exists>tl. trace (snd (run env depth target s)) = trace s @ LockAcquire (lock_file env) 5 # tl \<and>
     (if lock_acquire env (world s) 5 then
        \<exists>mid. tl = mid @ [LockRelease] \<and> list_all (\<lambda>e. \<not> lock_event e) mid
      else
        run env depth target s =
          (Inr 1,
           s\<lparr>trace := trace s @
               [LockAcquire (lock_file env) 5,
                Printing ''Cannot perform the cmd since DVC is busy and locked. Please retry the cmd later.'']\<rparr>))"
proof (cases "lock_acquire env (world s) 5")
  case False
  then show ?thesis
    by (simp add: run_def emit_def)
next
  case True
  let ?s1 = "emit (LockAcquire (lock_file env) 5) s"
  obtain r2 s2 where t: "run_try env depth target ?s1 = (r2, s2)"
    by (cases "run_try env depth target ?s1")
  from run_try_appended[OF t] obtain mid where
    mid: "trace s2 = trace ?s1 @ mid" "list_all (\<lambda>e. \<not> lock_event e) mid"
    by (auto simp: appended_iff)
  have "snd (run env depth target s) = emit LockRelease s2"
    using True t by (simp add: run_def split: sum.splits option.splits)
  then have "trace (snd (run env depth target s)) =
               trace s @ LockAcquire (lock_file env) 5 # (mid @ [LockRelease])"
    using mid(1) by simp
  with mid(2) True show ?thesis by auto
qed

theorem lock_discipline_witness:
  "lock_acquire (demo_env demo_table_malformed [] False True) (world (demo_st [])) 5
   \<and> (\<exists>mid. trace (snd (run (demo_env demo_table_malformed [] False True) (Suc 0)
                            [''data/bad''] (demo_st [])))
               = LockAcquire ''.dvc.lock'' 5 # mid @ [LockRelease]
             \<and> list_all (\<lambda>e. \<not> lock_event e) mid)
   \<and> \<not> lock_acquire ((demo_env demo_table_malformed [] False True)\<lparr>lock_acquire := \<lambda>w t. False\<rparr>)
           (world (demo_st [])) 5
   \<and> fst (run ((demo_env demo_table_malformed [] False True)\<lparr>lock_acquire := \<lambda>w t. False\<rparr>)
             (Suc 0) [''data/bad''] (demo_st [])) = Inr 1"
  using lock_discipline[of "demo_env demo_table_malformed [] False True" "Suc 0"
          "[''data/bad'']" "demo_st []"]
        lock_discipline[of "(demo_env demo_table_malformed [] False True)\<lparr>lock_acquire := \<lambda>w t. False\<rparr>"
          "Suc 0" "[''data/bad'']" "demo_st []"]
  by (auto simp: demo_env_def demo_st_def)

subsection \<open>Targets outside the data directory\<close>

text \<open>
  Claim C6. When the lock is obtained and the repository check passes or is skipped, and
  \<^verbatim>\<open>to_data_items\<close> reports at least one target outside the data directory, \<^verbatim>\<open>run\<close>
  returns 1. All it does is log one error, which holds every name \<^verbatim>\<open>to_data_items\<close>
  reported, and release the lock: no state file is loaded, no command is run, nothing is
  committed, and the world is as it was.
\<close>

theorem external_targets_abort:
  assumes "lock_acquire env (world s) 5"
      and "skip_git_actions env \<or> is_ready_to_go env (world s)"
      and "snd (to_data_items env target) \<noteq> []"
  shows "run env depth target s =
        (Inr 1,
         s\<lparr>trace := trace s @ [LockAcquire (lock_file env) 5] @
              (if skip_git_actions env then [] else [IsReadyToGo]) @
              [ToDataItems target,
               LogError (''Files from outside of the data directory '' @ dq @ data_dir env @ dq @
                 '' could not be reproduced: '' @ join '' '' (snd (to_data_items env target))),
               LockRelease]\<rparr>)
    \<and> (\<forall>name \<in> set (snd (to_data_items env target)).
          sublist name
            (''Files from outside of the data directory '' @ dq @ data_dir env @ dq @
                 '' could not be reproduced: '' @ join '' '' (snd (to_data_items env target))))"
proof -
  let ?msg = "''Files from outside of the data directory '' @ dq @ data_dir env @
                     dq @ '' could not be reproduced: '' @ join '' '' (snd (to_data_items env target))"
  have "run env depth target s =
        (Inr 1,
         s\<lparr>trace := trace s @ [LockAcquire (lock_file env) 5] @
              (if skip_git_actions env then [] else [IsReadyToGo]) @
              [ToDataItems target, LogError ?msg, LockRelease]\<rparr>)"
    using assms by (auto simp: run_def run_try_def Let_def emit_def)
  moreover have "sublist name ?msg" if "name \<in> set (snd (to_data_items env target))" for name
    by (intro sublist_skip sublist_join that)
  ultimately show ?thesis by blast
qed

theorem external_targets_abort_witness:
  "lock_acquire (demo_env [] [] False True) (world (demo_st [])) 5
   \<and> is_ready_to_go (demo_env [] [] False True) (world (demo_st []))
   \<and> snd (to_data_items (demo_env [] [] False True) [''/tmp/x'', ''data/a'', ''/tmp/y'']) = [''/tmp/x'', ''/tmp/y'']
   \<and> (\<exists>msg. run (demo_env [] [] False True) (Suc 0) [''/tmp/x'', ''data/a'', ''/tmp/y''] (demo_st [])
         = (Inr 1,
            \<lparr>world = \<lparr>fs = {}, ext = ()\<rparr>, code = [],
             trace = [LockAcquire ''.dvc.lock'' 5, IsReadyToGo,
                      ToDataItems [''/tmp/x'', ''data/a'', ''/tmp/y''], LogError msg, LockRelease]\<rparr>)
        \<and> sublist ''/tmp/x'' msg \<and> sublist ''/tmp/y'' msg)"
proof -
  let ?E = "demo_env [] [] False True"
  let ?T = "[''/tmp/x'', ''data/a'', ''/tmp/y'']"
  have h1: "lock_acquire ?E (world (demo_st [])) 5"
    and h2: "is_ready_to_go ?E (world (demo_st []))"
    and h3: "snd (to_data_items ?E ?T) = [''/tmp/x'', ''/tmp/y'']"
    by (simp_all add: demo_env_def)
  from h3 have h3': "snd (to_data_items ?E ?T) \<noteq> []" by simp
  let ?msg = "''Files from outside of the data directory '' @ dq @ data_dir ?E @ dq @
                 '' could not be reproduced: '' @ join '' '' [''/tmp/x'', ''/tmp/y'']"
  from external_targets_abort[OF h1 disjI2[OF h2] h3', of "Suc 0"] h3
  have "run ?E (Suc 0) ?T (demo_st [])
         = (Inr 1,
            \<lparr>world = \<lparr>fs = {}, ext = ()\<rparr>, code = [],
             trace = [LockAcquire ''.dvc.lock'' 5, IsReadyToGo,
                      ToDataItems ?T, LogError ?msg, LockRelease]\<rparr>)
        \<and> sublist ''/tmp/x'' ?msg \<and> sublist ''/tmp/y'' ?msg"
    by (simp add: demo_env_def demo_st_def)
  then have "\<exists>msg. run ?E (Suc 0) ?T (demo_st [])
         = (Inr 1,
            \<lparr>world = \<lparr>fs = {}, ext = ()\<rparr>, code = [],
             trace = [LockAcquire ''.dvc.lock'' 5, IsReadyToGo,
                      ToDataItems ?T, LogError msg, LockRelease]\<rparr>)
        \<and> sublist ''/tmp/x'' msg \<and> sublist ''/tmp/y'' msg"
    by blast
  with h1 h2 h3 show ?thesis by blast
qed

subsection \<open>A target that raises ReproError\<close>

text \<open>
  Claim C7, as the code has it. Let the targets before \<open>item\<close> be processed without error,
  and let the construction or reproduction of \<open>item\<close> raise \<open>ReproError\<close>. Then \<^verbatim>\<open>run\<close>
  logs the error for \<open>item\<close>, touches none of the targets after it, calls
  \<^verbatim>\<open>commit_if_needed\<close> not at all and returns 1. The summary error and the warning about
  changes that were not committed follow only when \<^verbatim>\<open>skip_git_actions\<close> is off: the code
  guards them with \<^verbatim>\<open>if error and not self.skip_git_actions\<close>.
\<close>

theorem repro_error_stops_the_run:
  assumes "reaches_targets env target s0"
      and "fst (to_data_items env target) = pre @ item # rest"
      and "repro_loop env depth pre False (entry_state env target s0) = (Inr (False, ch), s)"
      and "repro_target env depth item s = (Inl (ReproError msg), s2)"
  shows "run env depth target s0 =
           (Inr 1,
            s2\<lparr>trace := trace s2 @
                  [LogError (''Error in reproducing data file '' @ data_relative item @ '': '' @ msg)] @
                  (if skip_git_actions env then []
                   else [LogError ''Errors occurred. One or more repro cmd was not successful.'',
                         NotCommittedChangesWarning]) @
                  [LockRelease]\<rparr>)
         \<and> commits (snd (run env depth target s0)) = commits s0"
proof -
  have r: "run env depth target s0 =
           (Inr 1,
            s2\<lparr>trace := trace s2 @
                  [LogError (''Error in reproducing data file '' @ data_relative item @ '': '' @ msg)] @
                  errors_occurred env @ [LockRelease]\<rparr>)"
    using assms by (rule run_aborts_on_ReproError)
  have "commits s2 = commits s"
    using repro_target_appended[OF assms(4)] by (rule commits_appended) (simp add: node_event_cases)
  also have "\<dots> = commits (entry_state env target s0)"
    using repro_loop_completed_appended[OF assms(3)]
    by (rule commits_appended) (simp add: target_event_cases)
  finally have "commits s2 = commits s0"
    by (simp add: commits_entry_state)
  then have "commits (snd (run env depth target s0)) = commits s0"
    unfolding r by (simp add: commits_def errors_occurred_def)
  with r show ?thesis
    by (simp add: errors_occurred_def)
qed

theorem repro_error_stops_the_run_witness:
  "reaches_targets (demo_env demo_table_malformed [] False True)
      [''data/raw'', ''data/bad'', ''data/next''] (demo_st [''data/raw'', ''data/bad''])
   \<and> fst (to_data_items (demo_env demo_table_malformed [] False True)
              [''data/raw'', ''data/bad'', ''data/next''])
       = [demo_item ''data/raw''] @ demo_item ''data/bad'' # [demo_item ''data/next'']
   \<and> fst (repro_loop (demo_env demo_table_malformed [] False True) (Suc 0)
              [demo_item ''data/raw''] False
              (entry_state (demo_env demo_table_malformed [] False True)
                 [''data/raw'', ''data/bad'', ''data/next''] (demo_st [''data/raw'', ''data/bad''])))
       = Inr (False, False)
   \<and> fst (run (demo_env demo_table_malformed [] False True) (Suc 0)
              [''data/raw'', ''data/bad'', ''data/next''] (demo_st [''data/raw'', ''data/bad'']))
       = Inr 1
   \<and> NotCommittedChangesWarning \<in>
       set (trace (snd (run (demo_env demo_table_malformed [] False True) (Suc 0)
              [''data/raw'', ''data/bad'', ''data/next''] (demo_st [''data/raw'', ''data/bad'']))))
   \<and> StateFileLoad ''data/next.state'' \<notin>
       set (trace (snd (run (demo_env demo_table_malformed [] False True) (Suc 0)
              [''data/raw'', ''data/bad'', ''data/next''] (demo_st [''data/raw'', ''data/bad'']))))
   \<and> commits (snd (run (demo_env demo_table_malformed [] False True) (Suc 0)
              [''data/raw'', ''data/bad'', ''data/next''] (demo_st [''data/raw'', ''data/bad''])))
       = 0"
proof -
  let ?E = "demo_env demo_table_malformed [] False True"
  let ?T = "[''data/raw'', ''data/bad'', ''data/next'']"
  let ?S0 = "demo_st [''data/raw'', ''data/bad'']"
  let ?L = "repro_loop ?E (Suc 0) [demo_item ''data/raw''] False (entry_state ?E ?T ?S0)"
  let ?R = "repro_target ?E (Suc 0) (demo_item ''data/bad'') (snd ?L)"
  let ?msg = "''Run error: Error: reproducible cmd in state file '' @ dq @ ''data/bad.state'' @ dq @
                '' is too short''"
  have h1: "reaches_targets ?E ?T ?S0"
    by (simp add: demo_simps)
  have h2: "fst (to_data_items ?E ?T)
              = [demo_item ''data/raw''] @ demo_item ''data/bad'' # [demo_item ''data/next'']"
    by (simp add: demo_simps)
  have l: "fst ?L = Inr (False, False)"
    by (simp add: demo_simps demo_table_malformed_def)
  then have h3: "?L = (Inr (False, False), snd ?L)"
    by (metis prod.collapse)
  have "fst ?R = Inl (ReproError ?msg)"
    by (simp add: demo_simps demo_table_malformed_def)
  then have h4: "?R = (Inl (ReproError ?msg), snd ?R)"
    by (metis prod.collapse)
  have tr: "trace (snd ?R) = trace (snd ?L) @ [StateFileLoad ''data/bad.state'']"
    by (simp add: demo_simps demo_table_malformed_def)
  have tl: "StateFileLoad ''data/next.state'' \<notin> set (trace (snd ?L))"
    by (simp add: demo_simps demo_table_malformed_def)
  have c0: "commits ?S0 = 0"
    by (simp add: commits_def demo_st_def)
  note stops = repro_error_stops_the_run[OF h1 h2 h3 h4]
  from stops[THEN conjunct2] c0
  have "commits (snd (run ?E (Suc 0) ?T ?S0)) = 0"
    by simp
  moreover from stops[THEN conjunct1] tr tl
  have "fst (run ?E (Suc 0) ?T ?S0) = Inr 1"
    "NotCommittedChangesWarning \<in> set (trace (snd (run ?E (Suc 0) ?T ?S0)))"
    "StateFileLoad ''data/next.state'' \<notin> set (trace (snd (run ?E (Suc 0) ?T ?S0)))"
    by (simp_all add: demo_env_def)
  ultimately show ?thesis using h1 h2 l by blast
qed

text \<open>With \<^verbatim>\<open>skip_git_actions\<close> on, a target that raises \<open>ReproError\<close> gets its error
  logged, and no warning follows.\<close>

theorem warning_not_given_counterexample:
  "skip_git_actions (demo_env demo_table_malformed [] True True)
   \<and> fst (repro_target (demo_env demo_table_malformed [] True True) (Suc 0) (demo_item ''data/bad'')
             (entry_state (demo_env demo_table_malformed [] True True) [''data/bad''] (demo_st [])))
       = Inl (ReproError (''Run error: Error: reproducible cmd in state file '' @ dq @
                ''data/bad.state'' @ dq @ '' is too short''))
   \<and> run (demo_env demo_table_malformed [] True True) (Suc 0) [''data/bad''] (demo_st [])
       = (Inr 1,
          \<lparr>world = \<lparr>fs = {}, ext = ()\<rparr>, code = [''code.py''],
           trace = [LockAcquire ''.dvc.lock'' 5, ToDataItems [''data/bad''],
                    StateFileLoad ''data/bad.state'',
                    LogError (''Error in reproducing data file data/bad: Run error: Error: reproducible cmd in state file '' @
                       dq @ ''data/bad.state'' @ dq @ '' is too short''),
                    LockRelease]\<rparr>)"
  by (simp add: demo_simps demo_table_malformed_def)

subsection \<open>The call of the change detector\<close>

text \<open>
  Claim C8, as the code has it. One invocation of \<^verbatim>\<open>reproduce\<close> calls
  \<^verbatim>\<open>git.were_files_changed\<close> at most once for its own node. A node that is not reproducible
  returns before the call, and so does an invocation whose dependencies raise: neither
  adds a call of its own. When the node is reproducible and the dependencies were reproduced
  without an exception, the call is the first thing that happens after them (everything
  the children did is in the trace already), with the data file and the code dependencies
  of the node, and nothing the invocation does afterwards is another such call.
\<close>

theorem change_detector_once:
  "(\<not> is_reproducible (n_state nd) \<longrightarrow>
      detector_calls (snd (reproduce (Suc depth) env nd force s)) = detector_calls s)
 \<and> (\<forall>e s4.
       is_reproducible (n_state nd) \<and> after_dependencies depth env nd force s = (Inl e, s4)
       \<longrightarrow> snd (reproduce (Suc depth) env nd force s) = s4)
 \<and> (\<forall>c s4.
       is_reproducible (n_state nd) \<and> after_dependencies depth env nd force s = (Inr c, s4)
       \<longrightarrow> (\<exists>tl. trace (snd (reproduce (Suc depth) env nd force s)) =
                  trace s4 @
                  WereFilesChanged (data_relative (n_data_item nd))
                    (code_dependencies (n_state nd)) # tl
                \<and> list_all (\<lambda>e. \<not> is_WereFilesChanged e) tl))
 \<and> (\<forall>r s4. after_dependencies depth env nd force s = (r, s4) \<longrightarrow> appended node_event s s4)"
proof (intro conjI allI impI)
  show "detector_calls (snd (reproduce (Suc depth) env nd force s)) = detector_calls s"
    if "\<not> is_reproducible (n_state nd)"
    using that by (simp add: reproduce_not_reproducible detector_calls_def del: reproduce.simps)
  show "snd (reproduce (Suc depth) env nd force s) = s4"
    if "is_reproducible (n_state nd) \<and> after_dependencies depth env nd force s = (Inl e, s4)"
    for e s4
    using that by (simp add: reproduce_reproducible del: reproduce.simps)
  show "\<exists>tl. trace (snd (reproduce (Suc depth) env nd force s)) =
                  trace s4 @
                  WereFilesChanged (data_relative (n_data_item nd))
                    (code_dependencies (n_state nd)) # tl
                \<and> list_all (\<lambda>e. \<not> is_WereFilesChanged e) tl"
    if h: "is_reproducible (n_state nd) \<and> after_dependencies depth env nd force s = (Inr c, s4)"
    for c s4
  proof -
    let ?p = "data_relative (n_data_item nd)"
    let ?cd = "code_dependencies (n_state nd)"
    let ?s5 = "emit (WereFilesChanged ?p ?cd) s4"
    show ?thesis
    proof (cases "\<not> force \<and> \<not> were_files_changed env (world s4) ?p ?cd \<and> \<not> c")
      case True
      with h show ?thesis
        by (simp add: reproduce_reproducible del: reproduce.simps)
    next
      case False
      with h have r: "reproduce (Suc depth) env nd force s = reproduce_data_file env nd ?s5"
        by (auto simp: reproduce_reproducible simp del: reproduce.simps)
      show ?thesis
        unfolding r
        by (cases "?p \<in> fs (world ?s5)")
           (simp_all add: reproduce_data_file_present reproduce_data_file_missing Let_def)
    qed
  qed
  show "appended node_event s s4" if "after_dependencies depth env nd force s = (r, s4)" for r s4
    using that by (rule after_dependencies_appended)
qed

theorem change_detector_once_witness:
  "\<not> is_reproducible (n_state (demo_node ''data/leaf'' demo_state_leaf))
   \<and> detector_calls (snd (reproduce (Suc 0) (demo_env [] [] False True)
         (demo_node ''data/leaf'' demo_state_leaf) False (demo_st [''data/leaf'']))) = 0
   \<and> is_reproducible (n_state (demo_node ''data/out'' demo_state_out))
   \<and> fst (after_dependencies (Suc 0) (demo_env demo_table_chain2 [''data/mid''] False True)
            (demo_node ''data/out'' demo_state_out) False (demo_st [''data/out''])) = Inl (OSError ''data/mid'')
   \<and> detector_calls (snd (reproduce (Suc (Suc 0)) (demo_env demo_table_chain2 [''data/mid''] False True)
         (demo_node ''data/out'' demo_state_out) False (demo_st [''data/out'']))) = 1
   \<and> fst (after_dependencies (Suc 0) (demo_env demo_table_chain2 [''data/mid''] False True)
            (demo_node ''data/out'' demo_state_out) False (demo_st [''data/out'', ''data/mid''])) = Inr True
   \<and> detector_calls (snd (after_dependencies (Suc 0) (demo_env demo_table_chain2 [''data/mid''] False True)
         (demo_node ''data/out'' demo_state_out) False (demo_st [''data/out'', ''data/mid'']))) = 1
   \<and> detector_calls (snd (reproduce (Suc (Suc 0)) (demo_env demo_table_chain2 [''data/mid''] False True)
         (demo_node ''data/out'' demo_state_out) False (demo_st [''data/out'', ''data/mid'']))) = 2"
proof -
  let ?leaf = "demo_node ''data/leaf'' demo_state_leaf"
  let ?out = "demo_node ''data/out'' demo_state_out"
  let ?EL = "demo_env [] [] False True"
  let ?E = "demo_env demo_table_chain2 [''data/mid''] False True"
  let ?SL = "demo_st [''data/leaf'']"
  let ?S1 = "demo_st [''data/out'']"
  let ?S2 = "demo_st [''data/out'', ''data/mid'']"
  note ev = demo_simps demo_node_def demo_state_leaf_def demo_state_mid_def demo_state_out_def
    demo_table_chain2_def after_dependencies_def detector_calls_def
  have l0: "\<not> is_reproducible (n_state ?leaf)" by (simp add: ev)
  have l1: "detector_calls ?SL = 0" by (simp add: ev)
  from change_detector_once[of ?leaf 0 ?EL False ?SL, THEN conjunct1] l0 l1
  have l: "detector_calls (snd (reproduce (Suc 0) ?EL ?leaf False ?SL)) = 0"
    by (simp del: reproduce.simps)
  have o0: "is_reproducible (n_state ?out)" by (simp add: ev)
  have e1: "fst (after_dependencies (Suc 0) ?E ?out False ?S1) = Inl (OSError ''data/mid'')"
    by (simp add: ev)
  then have e1': "after_dependencies (Suc 0) ?E ?out False ?S1
                    = (Inl (OSError ''data/mid''), snd (after_dependencies (Suc 0) ?E ?out False ?S1))"
    by (metis prod.collapse)
  have e2: "detector_calls (snd (after_dependencies (Suc 0) ?E ?out False ?S1)) = 1"
    by (simp add: ev)
  from change_detector_once[of ?out "Suc 0" ?E False ?S1, THEN conjunct2, THEN conjunct1,
         rule_format, OF conjI, OF o0 e1'] e2
  have e: "detector_calls (snd (reproduce (Suc (Suc 0)) ?E ?out False ?S1)) = 1"
    by (simp del: reproduce.simps)
  have c1: "fst (after_dependencies (Suc 0) ?E ?out False ?S2) = Inr True"
    by (simp add: ev)
  then have c1': "after_dependencies (Suc 0) ?E ?out False ?S2
                    = (Inr True, snd (after_dependencies (Suc 0) ?E ?out False ?S2))"
    by (metis prod.collapse)
  have c2: "detector_calls (snd (after_dependencies (Suc 0) ?E ?out False ?S2)) = 1"
    by (simp add: ev)
  from change_detector_once[of ?out "Suc 0" ?E False ?S2, THEN conjunct2, THEN conjunct2,
         THEN conjunct1, rule_format, OF conjI, OF o0 c1']
  obtain tl where
    "trace (snd (reproduce (Suc (Suc 0)) ?E ?out False ?S2)) =
       trace (snd (after_dependencies (Suc 0) ?E ?out False ?S2)) @
         WereFilesChanged (data_relative (n_data_item ?out)) (code_dependencies (n_state ?out)) # tl"
    "list_all (\<lambda>e. \<not> is_WereFilesChanged e) tl"
    by blast
  with c2 have c: "detector_calls (snd (reproduce (Suc (Suc 0)) ?E ?out False ?S2)) = 2"
    by (simp add: detector_calls_def list_all_iff del: reproduce.simps)
  from l0 l o0 e1 e c1 c2 c show ?thesis by (intro conjI)
qed

text \<open>A node that is not reproducible: \<^verbatim>\<open>reproduce\<close> returns false and git was not asked.\<close>

theorem change_detector_not_called_counterexample:
  "reproduce (Suc 0) (demo_env [] [] False True) (demo_node ''data/leaf'' demo_state_leaf) False
     (demo_st [''data/leaf''])
   = (Inr False,
      \<lparr>world = \<lparr>fs = {''data/leaf''}, ext = ()\<rparr>, code = [],
       trace = [Print ''+++++++++++++++ reproduce'' [''data/leaf''],
                LogDebug (''Data file '' @ dq @ ''data/leaf'' @ dq @ '' is not reproducible'')]\<rparr>)
   \<and> detector_calls (snd (reproduce (Suc 0) (demo_env [] [] False True)
        (demo_node ''data/leaf'' demo_state_leaf) False (demo_st [''data/leaf'']))) = 0"
  by (simp add: demo_simps demo_node_def demo_state_leaf_def detector_calls_def)

subsection \<open>The list of code dependencies on the command object\<close>




subsection \<open>Regeneration when the output is not there\<close>

text \<open>
  Claim C10. \<^verbatim>\<open>reproduce_data_file\<close> calls \<^verbatim>\<open>os.remove\<close> on the output before anything
  else. If the file is there, the command runs in a world without it. If the file is not
  there, \<^verbatim>\<open>os.remove\<close> raises \<open>OSError\<close>, which is not a \<open>ReproError\<close>, and the command does
  not run; \<^verbatim>\<open>reproduce\<close> ends with that exception, and so does every \<^verbatim>\<open>reproduce\<close> above
  it. An exception that is not a \<open>ReproError\<close> is not caught by the loop over the targets:
  it leaves \<^verbatim>\<open>run\<close>, no error message and no warning about uncommitted changes is
  written, and the last thing that happens is the release of the lock.
\<close>

theorem missing_output_escapes:
  "(data_relative (n_data_item nd) \<in> fs (world s) \<longrightarrow>
      reproduce_data_file env nd s =
        (let w = (world s)\<lparr>fs := fs (world s) - {data_relative (n_data_item nd)}\<rparr>;
             rw = run_command env w (code s) (n_repro_argv nd)
                    (data_items_from_args env w (n_repro_argv nd))
         in (fst rw,
             s\<lparr>world := snd rw,
               trace := trace s @
                 [LogDebug (''Reproducing data file '' @ dq @ data_relative (n_data_item nd) @ dq @
                              ''. Removing the file...''),
                  OsRemove (data_relative (n_data_item nd)),
                  LogDebug (''Reproducing data file '' @ dq @ data_relative (n_data_item nd) @ dq @
                              ''. Re-runs cmd: '' @ join '' '' (n_repro_argv nd)),
                  DataItemsFromArgs (n_repro_argv nd),
                  RunCommand (n_repro_argv nd)]\<rparr>)))
 \<and> (data_relative (n_data_item nd) \<notin> fs (world s) \<longrightarrow>
      reproduce_data_file env nd s =
        (Inl (OSError (data_relative (n_data_item nd))),
         s\<lparr>trace := trace s @
             [LogDebug (''Reproducing data file '' @ dq @ data_relative (n_data_item nd) @ dq @
                          ''. Removing the file...''),
              OsRemove (data_relative (n_data_item nd))]\<rparr>)
      \<and> \<not> is_ReproError (OSError (data_relative (n_data_item nd))))
 \<and> (\<forall>force c s4.
       is_reproducible (n_state nd) \<and>
       after_dependencies depth env nd force s = (Inr c, s4) \<and>
       (force \<or> c \<or> were_files_changed env (world s4) (data_relative (n_data_item nd))
                        (code_dependencies (n_state nd))) \<and>
       data_relative (n_data_item nd) \<notin> fs (world s4)
       \<longrightarrow> fst (reproduce (Suc depth) env nd force s) = Inl (OSError (data_relative (n_data_item nd))))
 \<and> (\<forall>force e s4.
       is_reproducible (n_state nd) \<and> after_dependencies depth env nd force s = (Inl e, s4)
       \<longrightarrow> reproduce (Suc depth) env nd force s = (Inl e, s4))
 \<and> (\<forall>target s0 pre item rest ch sb e.
       reaches_targets env target s0 \<and>
       fst (to_data_items env target) = pre @ item # rest \<and>
       repro_loop env depth pre False (entry_state env target s0) = (Inr (False, ch), s) \<and>
       repro_target env depth item s = (Inl e, sb) \<and>
       \<not> is_ReproError e
       \<longrightarrow> run env depth target s0 = (Inl e, emit LockRelease sb) \<and>
           appended (\<lambda>e. \<not> is_LogError e \<and> e \<noteq> NotCommittedChangesWarning) s0
             (emit LockRelease sb))"
proof (intro conjI allI impI)
  show "reproduce_data_file env nd s =
        (let w = (world s)\<lparr>fs := fs (world s) - {data_relative (n_data_item nd)}\<rparr>;
             rw = run_command env w (code s) (n_repro_argv nd)
                    (data_items_from_args env w (n_repro_argv nd))
         in (fst rw,
             s\<lparr>world := snd rw,
               trace := trace s @
                 [LogDebug (''Reproducing data file '' @ dq @ data_relative (n_data_item nd) @ dq @
                              ''. Removing the file...''),
                  OsRemove (data_relative (n_data_item nd)),
                  LogDebug (''Reproducing data file '' @ dq @ data_relative (n_data_item nd) @ dq @
                              ''. Re-runs cmd: '' @ join '' '' (n_repro_argv nd)),
                  DataItemsFromArgs (n_repro_argv nd),
                  RunCommand (n_repro_argv nd)]\<rparr>))"
    if "data_relative (n_data_item nd) \<in> fs (world s)"
    using that by (rule reproduce_data_file_present)
  show "reproduce_data_file env nd s =
        (Inl (OSError (data_relative (n_data_item nd))),
         s\<lparr>trace := trace s @
             [LogDebug (''Reproducing data file '' @ dq @ data_relative (n_data_item nd) @ dq @
                          ''. Removing the file...''),
              OsRemove (data_relative (n_data_item nd))]\<rparr>)"
    if "data_relative (n_data_item nd) \<notin> fs (world s)"
    using that by (rule reproduce_data_file_missing)
  show "\<not> is_ReproError (OSError (data_relative (n_data_item nd)))"
    by simp
  show "fst (reproduce (Suc depth) env nd force s) = Inl (OSError (data_relative (n_data_item nd)))"
    if "is_reproducible (n_state nd) \<and>
       after_dependencies depth env nd force s = (Inr c, s4) \<and>
       (force \<or> c \<or> were_files_changed env (world s4) (data_relative (n_data_item nd))
                        (code_dependencies (n_state nd))) \<and>
       data_relative (n_data_item nd) \<notin> fs (world s4)" for force c s4
    using that by (auto simp: reproduce_reproducible reproduce_data_file_missing simp del: reproduce.simps)
  show "reproduce (Suc depth) env nd force s = (Inl e, s4)"
    if "is_reproducible (n_state nd) \<and> after_dependencies depth env nd force s = (Inl e, s4)"
    for force e s4
    using that by (simp add: reproduce_reproducible del: reproduce.simps)
  show "run env depth target s0 = (Inl e, emit LockRelease sb)"
    if "reaches_targets env target s0 \<and>
       fst (to_data_items env target) = pre @ item # rest \<and>
       repro_loop env depth pre False (entry_state env target s0) = (Inr (False, ch), s) \<and>
       repro_target env depth item s = (Inl e, sb) \<and>
       \<not> is_ReproError e" for target s0 pre item rest ch sb e
    using that by (blast intro: run_escapes)
  show "appended (\<lambda>e. \<not> is_LogError e \<and> e \<noteq> NotCommittedChangesWarning) s0
             (emit LockRelease sb)"
    if "reaches_targets env target s0 \<and>
       fst (to_data_items env target) = pre @ item # rest \<and>
       repro_loop env depth pre False (entry_state env target s0) = (Inr (False, ch), s) \<and>
       repro_target env depth item s = (Inl e, sb) \<and>
       \<not> is_ReproError e" for target s0 pre item rest ch sb e
    using that by (blast intro: escape_appended)
qed

theorem missing_output_escapes_witness:
  "data_relative (n_data_item (demo_node ''data/out'' demo_state_out)) \<in> fs (world (demo_st [''data/out'']))
   \<and> fst (reproduce_data_file (demo_env demo_table_chain2 [''data/mid''] False True)
             (demo_node ''data/out'' demo_state_out) (demo_st [''data/out''])) = Inr True
   \<and> data_relative (n_data_item (demo_node ''data/mid'' demo_state_mid)) \<notin> fs (world (demo_st [''data/out'']))
   \<and> fst (reproduce_data_file (demo_env demo_table_chain2 [''data/mid''] False True)
             (demo_node ''data/mid'' demo_state_mid) (demo_st [''data/out''])) = Inl (OSError ''data/mid'')
   \<and> fst (reproduce (Suc 0) (demo_env demo_table_chain2 [''data/mid''] False True)
             (demo_node ''data/mid'' demo_state_mid) False (demo_st [''data/out''])) = Inl (OSError ''data/mid'')
   \<and> fst (reproduce (Suc (Suc 0)) (demo_env demo_table_chain2 [''data/mid''] False True)
             (demo_node ''data/out'' demo_state_out) False (demo_st [''data/out''])) = Inl (OSError ''data/mid'')
   \<and> fst (run (demo_env demo_table_chain2 [''data/mid''] False True) (Suc (Suc 0)) [''data/out'']
             (demo_st [''data/out''])) = Inl (OSError ''data/mid'')
   \<and> last (trace (snd (run (demo_env demo_table_chain2 [''data/mid''] False True) (Suc (Suc 0))
             [''data/out''] (demo_st [''data/out''])))) = LockRelease"
proof -
  let ?E = "demo_env demo_table_chain2 [''data/mid''] False True"
  let ?out = "demo_node ''data/out'' demo_state_out"
  let ?mid = "demo_node ''data/mid'' demo_state_mid"
  let ?S = "demo_st [''data/out'']"
  let ?s = "entry_state ?E [''data/out''] ?S"
  note ev = demo_simps demo_node_def demo_table_chain2_def demo_state_out_def demo_state_mid_def
    after_dependencies_def
  have p1: "data_relative (n_data_item ?out) \<in> fs (world ?S)"
    and m1: "data_relative (n_data_item ?mid) \<notin> fs (world ?S)"
    by (simp_all add: ev)
  from missing_output_escapes[of ?out ?S ?E 0, THEN conjunct1] p1
  have a: "fst (reproduce_data_file ?E ?out ?S) = Inr True"
    by (simp add: ev)
  from missing_output_escapes[of ?mid ?S ?E 0, THEN conjunct2, THEN conjunct1] m1
  have b: "fst (reproduce_data_file ?E ?mid ?S) = Inl (OSError ''data/mid'')"
    by (simp add: ev)
  have c1: "is_reproducible (n_state ?mid)"
    and c2: "fst (after_dependencies 0 ?E ?mid False ?S) = Inr False"
    and c3: "were_files_changed ?E (world (snd (after_dependencies 0 ?E ?mid False ?S)))
               (data_relative (n_data_item ?mid)) (code_dependencies (n_state ?mid))"
    and c4: "data_relative (n_data_item ?mid) \<notin> fs (world (snd (after_dependencies 0 ?E ?mid False ?S)))"
    by (simp_all add: ev)
  from c2 have c2': "after_dependencies 0 ?E ?mid False ?S
                       = (Inr False, snd (after_dependencies 0 ?E ?mid False ?S))"
    by (metis prod.collapse)
  from missing_output_escapes[of ?mid ?S ?E 0, THEN conjunct2, THEN conjunct2, THEN conjunct1]
    c1 c2' c3 c4
  have c: "fst (reproduce (Suc 0) ?E ?mid False ?S) = Inl (OSError ''data/mid'')"
    by (metis (no_types, lifting) demo_item_def demo_node_def node.select_convs(1) data_item.select_convs(1))
  have d1: "is_reproducible (n_state ?out)"
    and d2: "fst (after_dependencies (Suc 0) ?E ?out False ?S) = Inl (OSError ''data/mid'')"
    by (simp_all add: ev)
  from d2 have d2': "after_dependencies (Suc 0) ?E ?out False ?S
                       = (Inl (OSError ''data/mid''), snd (after_dependencies (Suc 0) ?E ?out False ?S))"
    by (metis prod.collapse)
  from missing_output_escapes[of ?out ?S ?E "Suc 0", THEN conjunct2, THEN conjunct2, THEN conjunct2,
         THEN conjunct1] d1 d2'
  have d: "fst (reproduce (Suc (Suc 0)) ?E ?out False ?S) = Inl (OSError ''data/mid'')"
    by (metis fst_conv)
  have e1: "reaches_targets ?E [''data/out''] ?S"
    and e2: "fst (to_data_items ?E [''data/out'']) = [] @ demo_item ''data/out'' # []"
    and e3: "repro_loop ?E (Suc (Suc 0)) [] False ?s = (Inr (False, False), ?s)"
    and e4: "fst (repro_target ?E (Suc (Suc 0)) (demo_item ''data/out'') ?s) = Inl (OSError ''data/mid'')"
    by (simp_all add: ev)
  from e4 have e4': "repro_target ?E (Suc (Suc 0)) (demo_item ''data/out'') ?s
                       = (Inl (OSError ''data/mid''), snd (repro_target ?E (Suc (Suc 0)) (demo_item ''data/out'') ?s))"
    by (metis prod.collapse)
  have e5: "\<not> is_ReproError (OSError ''data/mid'')" by simp
  from missing_output_escapes[of ?out ?s ?E "Suc (Suc 0)", THEN conjunct2, THEN conjunct2,
         THEN conjunct2, THEN conjunct2] e1 e2 e3 e4' e5
  have "run ?E (Suc (Suc 0)) [''data/out''] ?S
          = (Inl (OSError ''data/mid''),
             emit LockRelease (snd (repro_target ?E (Suc (Suc 0)) (demo_item ''data/out'') ?s)))"
    by blast
  then have e: "fst (run ?E (Suc (Suc 0)) [''data/out''] ?S) = Inl (OSError ''data/mid'')"
    "last (trace (snd (run ?E (Suc (Suc 0)) [''data/out''] ?S))) = LockRelease"
    by simp_all
  from p1 a m1 b c d e show ?thesis by blast
qed

end
